theory Spec2Isabelle
  imports
    Main
    "HOL-Library.Char_ord"
    "HOL-Library.List_Lexorder"
    "HOL-Library.Sublist"
    "HOL-Library.Multiset"
begin

section \<open>The syntax tree the import reviser works on\<close>

text \<open>
  The reviser reads and rewrites a parsed Go file. Of \<open>ast.File\<close> only the field
  \<open>Decls\<close> is touched; the other fields stay in the extension part of the record.
  A declaration is either a \<open>*ast.GenDecl\<close> (with its token and its specifications)
  (\<open>token.CONST\<close> is written \<open>CONST_token\<close>)
  or any other declaration, which the code never looks into. A specification is an
  \<open>*ast.ImportSpec\<close> (the optional name and the value of the path literal, which
  carries its quote characters) or any other specification.

  Strings are byte lists; \<open>\<le>\<close> on them is the byte-wise lexicographic order that
  Go's string comparison and \<open>sort.Strings\<close> use.
\<close>

datatype token = IMPORT | CONST_token | TYPE | VAR

datatype 's spec =
    ImportSpec "string option" string
  | OtherSpec 's

datatype ('s, 'd) decl =
    GenDecl token "'s spec list"
  | OtherDecl 'd

record ('s, 'd) File =
  Decls :: "('s, 'd) decl list"

datatype error = TypeAssertionPanic

text \<open>The constant \<open>projectName\<close> of the source.\<close>

definition projectName :: string where
  "projectName = ''goimport-reviser''"

text \<open>\<open>strings.Contains(s, substr)\<close>: \<open>substr\<close> occurs in \<open>s\<close> as a contiguous run.\<close>

definition strings_Contains :: "string \<Rightarrow> string \<Rightarrow> bool" where
  "strings_Contains s substr = sublist substr s"

section \<open>combineImports\<close>

text \<open>
  The string built for one import specification (the variable \<open>importSpecStr\<close>): a
  named import is flattened by \<open>strings.Join([]string{name, path}, " ")\<close>, an unnamed
  one is the value of its path literal.
\<close>

fun importSpecStr :: "string option \<Rightarrow> string \<Rightarrow> string" where
  "importSpecStr (Some name) pathValue = name @ '' '' @ pathValue"
| "importSpecStr None pathValue = pathValue"

text \<open>
  The inner loop over \<open>dd.Specs\<close>: the type assertion \<open>spec.(*ast.ImportSpec)\<close>
  panics on any other specification.
\<close>

fun importSpecStrs :: "'s spec list \<Rightarrow> string list \<Rightarrow> error + string list" where
  "importSpecStrs [] imports = Inr imports"
| "importSpecStrs (OtherSpec x # specs) imports = Inl TypeAssertionPanic"
| "importSpecStrs (ImportSpec name pathValue # specs) imports =
     importSpecStrs specs (imports @ [importSpecStr name pathValue])"

text \<open>The outer loop over \<open>f.Decls\<close>.\<close>

fun combineDecls :: "('s, 'd) decl list \<Rightarrow> string list \<Rightarrow> error + string list" where
  "combineDecls [] imports = Inr imports"
| "combineDecls (GenDecl tok specs # decls) imports =
     (if tok = IMPORT then
        (case importSpecStrs specs imports of
           Inl e \<Rightarrow> Inl e
         | Inr imports' \<Rightarrow> combineDecls decls imports')
      else combineDecls decls imports)"
| "combineDecls (OtherDecl d # decls) imports = combineDecls decls imports"

definition combineImports :: "('s, 'd, 'm) File_scheme \<Rightarrow> error + string list" where
  "combineImports f = combineDecls (Decls f) []"

section \<open>groupImports\<close>

text \<open>
  The table \<open>helper.StdPackages\<close> is a parameter: a Go \<open>map[string]struct{}\<close> used
  only for key lookup, so a set of strings. The loop appends each import to one of
  three lists; the accumulator is (std, project, general).
\<close>

fun groupLoop :: "string set \<Rightarrow> string list \<Rightarrow> string list \<times> string list \<times> string list
    \<Rightarrow> string list \<times> string list \<times> string list" where
  "groupLoop StdPackages [] acc = acc"
| "groupLoop StdPackages (imprt # imports) (stdImports, projectImports, generalImports) =
     (if imprt \<in> StdPackages then
        groupLoop StdPackages imports (stdImports @ [imprt], projectImports, generalImports)
      else if strings_Contains imprt projectName then
        groupLoop StdPackages imports (stdImports, projectImports @ [imprt], generalImports)
      else
        groupLoop StdPackages imports (stdImports, projectImports, generalImports @ [imprt]))"

text \<open>
  \<open>sort.Strings\<close> sorts ascending in the byte-wise order; equal strings cannot be
  told apart, so the sorted list is determined. The result is returned in the order
  (std, project, general), as the source returns it.
\<close>

definition groupImports :: "string set \<Rightarrow> string list \<Rightarrow> string list \<times> string list \<times> string list" where
  "groupImports StdPackages imports =
     (case groupLoop StdPackages imports ([], [], []) of
        (stdImports, projectImports, generalImports) \<Rightarrow>
          (sort stdImports, sort projectImports, sort generalImports))"

section \<open>fixImports\<close>

text \<open>\<open>&ast.ImportSpec{Path: &ast.BasicLit{Value: v}}\<close>: no name node.\<close>

definition newImportSpec :: "string \<Rightarrow> 's spec" where
  "newImportSpec v = ImportSpec None v"

text \<open>
  The first two loops of the source have the same body: append the import, decrement
  \<open>linesCounter\<close>, and when it reaches zero and \<open>generalImports\<close> is not empty append
  a specification with the empty value (printed as a blank line). Both loops test
  \<open>len(generalImports)\<close>.
\<close>

fun appendGroup :: "int \<Rightarrow> string list \<Rightarrow> string list \<Rightarrow> 's spec list \<Rightarrow> 's spec list" where
  "appendGroup linesCounter generalImports [] specs = specs"
| "appendGroup linesCounter generalImports (imprt # rest) specs =
     (let specs1 = specs @ [newImportSpec imprt];
          linesCounter1 = linesCounter - 1;
          specs2 = (if linesCounter1 = 0 \<and> length generalImports > 0
                    then specs1 @ [newImportSpec '''']
                    else specs1)
      in appendGroup linesCounter1 generalImports rest specs2)"

text \<open>The third loop appends the project imports.\<close>

fun appendProject :: "string list \<Rightarrow> 's spec list \<Rightarrow> 's spec list" where
  "appendProject [] specs = specs"
| "appendProject (projectImport # rest) specs =
     appendProject rest (specs @ [newImportSpec projectImport])"

text \<open>The specification list built for one import declaration.\<close>

definition importBlock :: "string list \<Rightarrow> string list \<Rightarrow> string list \<Rightarrow> 's spec list" where
  "importBlock stdImports generalImports projectImports =
     (let specs1 = appendGroup (int (length stdImports)) generalImports stdImports [];
          specs2 = appendGroup (int (length generalImports)) generalImports generalImports specs1
      in appendProject projectImports specs2)"

text \<open>One iteration of the loop over \<open>f.Decls\<close>: only an import declaration is changed.\<close>

fun fixDecl :: "string list \<Rightarrow> string list \<Rightarrow> string list \<Rightarrow> ('s, 'd) decl \<Rightarrow> ('s, 'd) decl" where
  "fixDecl stdImports generalImports projectImports (GenDecl tok specs) =
     (if tok = IMPORT
      then GenDecl tok (importBlock stdImports generalImports projectImports)
      else GenDecl tok specs)"
| "fixDecl stdImports generalImports projectImports (OtherDecl d) = OtherDecl d"

definition fixImports :: "('s, 'd, 'm) File_scheme \<Rightarrow> string list \<Rightarrow> string list \<Rightarrow> string list
    \<Rightarrow> ('s, 'd, 'm) File_scheme" where
  "fixImports f stdImports generalImports projectImports =
     f\<lparr>Decls := map (fixDecl stdImports generalImports projectImports) (Decls f)\<rparr>"

section \<open>The pipeline of main, between parsing and printing\<close>

text \<open>
  The three calls of \<open>main\<close> in the file of \<open>combineImports\<close>, \<open>groupImports\<close> and
  \<open>fixImports\<close>, under the name \<open>revise\<close> (the driver of main.go has a \<open>main\<close> of its
  own): extract, group, and rewrite the tree, which \<open>generateFile\<close> then prints.
\<close>

definition revise :: "string set \<Rightarrow> ('s, 'd, 'm) File_scheme \<Rightarrow> error + ('s, 'd, 'm) File_scheme" where
  "revise StdPackages f =
     (case combineImports f of
        Inl e \<Rightarrow> Inl e
      | Inr imports \<Rightarrow>
          (case groupImports StdPackages imports of
             (stdImports, projectImports, generalImports) \<Rightarrow>
               Inr (fixImports f stdImports generalImports projectImports)))"

section \<open>The command-line driver (main.go)\<close>

text \<open>
  The flags after \<open>flag.Parse\<close>. The flag variable \<open>projectName\<close> of main.go is
  the field \<open>projectNameFlag\<close> here; \<open>shouldShowVersion\<close> stands for
  \<open>shouldShowVersion != nil && *shouldShowVersion\<close>, and likewise the other booleans.
\<close>

record flags =
  ignoreDir :: string
  dirPath :: string
  filePath :: string
  projectNameFlag :: string
  localPkgPrefixes :: string
  "output" :: string
  shouldShowVersion :: bool
  shouldRemoveUnusedImports :: bool
  shouldSetAlias :: bool
  shouldFormat :: bool

datatype reviser_option = OptionRemoveUnusedImports | OptionUseAliasForVersionSuffix | OptionFormat

text \<open>
  What \<open>filepath.Walk\<close> hands to its callback for one path: a directory, a file, or a
  path whose \<open>Lstat\<close> failed (then the \<open>info\<close> argument is nil).
\<close>

datatype walk_entry = WalkDir string | WalkFile string | WalkLstatError string

text \<open>
  The world outside the program, as parameters: \<open>os.Stat\<close> (\<open>None\<close> on error,
  otherwise whether the path is a directory), the module name found from a file path
  (\<open>module.GoModRootPath\<close> then \<open>module.Name\<close>, \<open>None\<close> on error), the paths
  \<open>filepath.Walk\<close> visits from a root, \<open>reviser.Execute\<close> (which reads the file, so
  it also depends on the files written so far; \<open>None\<close> on error, otherwise the
  formatted output and the change flag), and whether \<open>ioutil.WriteFile\<close> succeeds.
\<close>

record env =
  osStat :: "string \<Rightarrow> bool option"
  moduleNameOf :: "string \<Rightarrow> string option"
  walk :: "string \<Rightarrow> walk_entry list"
  Execute :: "(string \<times> string) list \<Rightarrow> string \<Rightarrow> string \<Rightarrow> string
                 \<Rightarrow> reviser_option list \<Rightarrow> (string \<times> bool) option"
  writeFileOk :: "string \<Rightarrow> bool"

datatype halt = Exit1 | LogFatal | NilPanic

text \<open>
  What a run has done: the file paths passed to \<open>reviser.Execute\<close>, in order; the
  outputs printed to stdout; the files written; and how the process stopped early, if
  it did. The progress bar and the informational prints are left out.
\<close>

record run_state =
  calls :: "string list"
  printed :: "string list"
  written :: "(string \<times> string) list"
  halted :: "halt option"

text \<open>\<open>strings.Split(s, sep)\<close> for a one-byte separator: never an empty list.\<close>

fun strings_Split :: "string \<Rightarrow> char \<Rightarrow> string list" where
  "strings_Split [] sep = [[]]"
| "strings_Split (c # cs) sep =
     (if c = sep then [] # strings_Split cs sep
      else (case strings_Split cs sep of
              [] \<Rightarrow> [[c]]
            | w # ws \<Rightarrow> (c # w) # ws))"

text \<open>\<open>isIgnore\<close>, over the global \<open>ignoreDirs\<close>, and \<open>isFormatFile\<close>.\<close>

fun isIgnore :: "string list \<Rightarrow> string \<Rightarrow> bool" where
  "isIgnore [] p = False"
| "isIgnore (val # ignoreDirs) p =
     (if strings_Contains p val then True else isIgnore ignoreDirs p)"

text \<open>
  \<open>filepath.Ext\<close>: scanning from the end of the path and stopping at a path
  separator, the suffix from the last dot; empty when there is none. The first argument
  is the part of the path not scanned yet, reversed; the second is the part scanned.
\<close>

fun extScan :: "string \<Rightarrow> string \<Rightarrow> string" where
  "extScan [] ext = []"
| "extScan (c # r) ext =
     (if c = CHR ''/'' then []
      else if c = CHR ''.'' then c # ext
      else extScan r (c # ext))"

definition filepath_Ext :: "string \<Rightarrow> string" where
  "filepath_Ext p = extScan (rev p) []"

definition isFormatFile :: "string \<Rightarrow> bool" where
  "isFormatFile p = (if filepath_Ext p = ''.go'' then True else False)"

text \<open>
  The two validations and \<open>determineProjectName\<close>: \<open>True\<close> stands for the nil
  error, \<open>None\<close> for an error return.
\<close>

definition validateDir :: "env \<Rightarrow> string \<Rightarrow> bool" where
  "validateDir e p =
     (if p = ''./...'' then True
      else (case osStat e p of None \<Rightarrow> False | Some isDir \<Rightarrow> isDir))"

definition validateRequiredParam :: "string \<Rightarrow> bool" where
  "validateRequiredParam fp = (fp \<noteq> [])"

definition determineProjectName :: "env \<Rightarrow> string \<Rightarrow> string \<Rightarrow> string option" where
  "determineProjectName e pn fp = (if pn = [] then moduleNameOf e fp else Some pn)"

definition buildOptions :: "flags \<Rightarrow> reviser_option list" where
  "buildOptions fl =
     (if shouldRemoveUnusedImports fl then [OptionRemoveUnusedImports] else [])
     @ (if shouldSetAlias fl then [OptionUseAliasForVersionSuffix] else [])
     @ (if shouldFormat fl then [OptionFormat] else [])"

text \<open>The closure \<open>executor\<close>; \<open>log.Fatalf\<close> ends the process.\<close>

definition executor :: "env \<Rightarrow> flags \<Rightarrow> string list \<Rightarrow> string \<Rightarrow> string \<Rightarrow> run_state \<Rightarrow> run_state" where
  "executor e fl ignoreDirs pn fp st =
     (if isIgnore ignoreDirs fp then st
      else if \<not> isFormatFile fp then st
      else
        (let st1 = st\<lparr>calls := calls st @ [fp]\<rparr> in
         case Execute e (written st) pn fp (localPkgPrefixes fl) (buildOptions fl) of
           None \<Rightarrow> st1\<lparr>halted := Some LogFatal\<rparr>
         | Some (formattedOutput, hasChange) \<Rightarrow>
             if output fl = ''stdout'' then st1\<lparr>printed := printed st1 @ [formattedOutput]\<rparr>
             else if output fl = ''file'' then
               (if \<not> hasChange then st1
                else if writeFileOk e fp
                then st1\<lparr>written := written st1 @ [(fp, formattedOutput)]\<rparr>
                else st1\<lparr>halted := Some LogFatal\<rparr>)
             else st1\<lparr>halted := Some LogFatal\<rparr>))"

text \<open>
  \<open>load\<close>: the callback returns nil for a directory and calls the executor for a
  file; with a nil \<open>info\<close> the call \<open>info.IsDir()\<close> panics.
\<close>

fun walkLoop :: "(string \<Rightarrow> run_state \<Rightarrow> run_state) \<Rightarrow> walk_entry list \<Rightarrow> run_state \<Rightarrow> run_state" where
  "walkLoop ex [] st = st"
| "walkLoop ex (w # ws) st =
     (if halted st \<noteq> None then st
      else (case w of
              WalkDir p \<Rightarrow> walkLoop ex ws st
            | WalkFile p \<Rightarrow> walkLoop ex ws (ex p st)
            | WalkLstatError p \<Rightarrow> st\<lparr>halted := Some NilPanic\<rparr>))"

definition load :: "env \<Rightarrow> string \<Rightarrow> (string \<Rightarrow> run_state \<Rightarrow> run_state) \<Rightarrow> run_state \<Rightarrow> run_state" where
  "load e rootPath ex st = walkLoop ex (walk e rootPath) st"

definition initial_state :: run_state where
  "initial_state = \<lparr>calls = [], printed = [], written = [], halted = None\<rparr>"

text \<open>
  \<open>main\<close>, from \<open>flag.Parse\<close> on. After the \<open>switch\<close> over \<open>dirPath\<close> the
  executor is called for \<open>filePath\<close> in every case.
\<close>

definition main :: "env \<Rightarrow> flags \<Rightarrow> run_state" where
  "main e fl =
     (let ignoreDirs = strings_Split (ignoreDir fl) CHR '','' in
      if shouldShowVersion fl then initial_state
      else if \<not> validateRequiredParam (filePath fl) \<and> \<not> validateDir e (dirPath fl)
      then initial_state\<lparr>halted := Some Exit1\<rparr>
      else
        (case determineProjectName e (projectNameFlag fl) (filePath fl) of
           None \<Rightarrow> initial_state\<lparr>halted := Some Exit1\<rparr>
         | Some pn \<Rightarrow>
             (let ex = executor e fl ignoreDirs pn;
                  st1 = (if dirPath fl = ''./...'' then load e ''./'' ex initial_state
                         else if dirPath fl = ''./'' then load e (dirPath fl) ex initial_state
                         else if dirPath fl \<noteq> [] then load e (dirPath fl) ex initial_state
                         else ex (filePath fl) initial_state)
              in if halted st1 \<noteq> None then st1 else ex (filePath fl) st1)))"

section \<open>Notions used to state the properties\<close>

datatype group = Standard | General | Project

text \<open>
  The classification as the specification words it, over a registry, a module name and
  a list of local prefixes: Standard on an exact match with the registry; otherwise Project
  when the path contains the module name or starts with one of the local prefixes;
  otherwise General.
\<close>

definition classify_spec :: "string set \<Rightarrow> string \<Rightarrow> string list \<Rightarrow> string \<Rightarrow> group" where
  "classify_spec registry moduleName localPrefixes p =
     (if p \<in> registry then Standard
      else if strings_Contains p moduleName \<or> list_ex (\<lambda>pre. prefix pre p) localPrefixes
      then Project
      else General)"

text \<open>The test of both loops over \<open>f.Decls\<close>: a \<open>*ast.GenDecl\<close> whose token is IMPORT.\<close>

fun isImportDecl :: "('s, 'd) decl \<Rightarrow> bool" where
  "isImportDecl (GenDecl tok specs) = (tok = IMPORT)"
| "isImportDecl (OtherDecl d) = False"

text \<open>The values of the path literals of the import specifications in a list.\<close>

fun pathValues :: "'s spec list \<Rightarrow> string list" where
  "pathValues [] = []"
| "pathValues (ImportSpec name pathValue # specs) = pathValue # pathValues specs"
| "pathValues (OtherSpec x # specs) = pathValues specs"

text \<open>The specifications of the import declarations of a file, in source order.\<close>

fun importSpecsOf :: "('s, 'd) decl list \<Rightarrow> 's spec list" where
  "importSpecsOf [] = []"
| "importSpecsOf (GenDecl tok specs # decls) =
     (if tok = IMPORT then specs @ importSpecsOf decls else importSpecsOf decls)"
| "importSpecsOf (OtherDecl d # decls) = importSpecsOf decls"

text \<open>An import specification and the string extracted from it.\<close>

fun extractedFrom :: "'s spec \<Rightarrow> string \<Rightarrow> bool" where
  "extractedFrom (ImportSpec name v) str = (str = importSpecStr name v)"
| "extractedFrom (OtherSpec x) str = False"

text \<open>The entries of an emitted block: its path values without the blank-line placeholders.\<close>

definition blockEntries :: "'s spec list \<Rightarrow> string list" where
  "blockEntries specs = filter (\<lambda>v. v \<noteq> []) (pathValues specs)"

text \<open>
  The import path inside an extracted string: the string from its first quote character
  on (an alias is an identifier and holds no quote character).
\<close>

definition entryPath :: "string \<Rightarrow> string" where
  "entryPath v = dropWhile (\<lambda>c. c \<noteq> CHR 0x22) v"

section \<open>The opt-in stages of the reviser package\<close>

text \<open>
  Modelled from the spec: the import entry of the data model (section 3), for the
  Unused-Import Detector and the Alias Assigner (sections 4.4 and 4.5). Both stages
  belong to the package \<open>reviser\<close>, which main.go calls through \<open>reviser.Execute\<close> with
  \<open>OptionRemoveUnusedImports\<close> and \<open>OptionUseAliasForVersionSuffix\<close>; the package is not
  among the sources, and the pipeline above takes no options. An import entry has a
  path, written with its quote characters, and an optional alias; its source position is
  in the extension part of the record.
\<close>

record ImportEntry =
  path :: string
  "alias" :: "string option"

text \<open>
  Modelled from the spec: the path without its surrounding quote characters (the
  specification's examples take the final segment of \<open>"fmt"\<close> to be \<open>fmt\<close>).
\<close>

definition unquote :: "string \<Rightarrow> string" where
  "unquote s = rev (dropWhile (\<lambda>c. c = CHR 0x22) (rev (dropWhile (\<lambda>c. c = CHR 0x22) s)))"

text \<open>Modelled from the spec: the segments of a path, between its path separators.\<close>

definition pathSegments :: "string \<Rightarrow> string list" where
  "pathSegments s = strings_Split (unquote s) CHR ''/''"

text \<open>
  Modelled from the spec: the local name of an entry is its explicit alias if present,
  otherwise the final path segment (the substring after the last path separator).
\<close>

definition localName :: "'m ImportEntry_scheme \<Rightarrow> string" where
  "localName e = (case alias e of Some a \<Rightarrow> a | None \<Rightarrow> last (pathSegments (path e)))"

text \<open>
  Modelled from the spec: the selector references of one declaration. The functions
  \<open>declRefs\<close> and \<open>specRefs\<close> give the left-hand identifiers of the selector
  expressions inside a declaration or specification that the tree keeps opaque; import
  declarations are not scanned.
\<close>

fun declSelectors :: "('d \<Rightarrow> string list) \<Rightarrow> ('s \<Rightarrow> string list) \<Rightarrow> ('s, 'd) decl \<Rightarrow> string list" where
  "declSelectors declRefs specRefs (OtherDecl d) = declRefs d"
| "declSelectors declRefs specRefs (GenDecl tok specs) =
     (if tok = IMPORT then []
      else concat (map (\<lambda>sp. case sp of OtherSpec x \<Rightarrow> specRefs x | ImportSpec n v \<Rightarrow> []) specs))"

text \<open>
  Modelled from the spec: the left-hand identifiers of all selector references in the
  non-import part of the tree.
\<close>

definition bodySelectors :: "('d \<Rightarrow> string list) \<Rightarrow> ('s \<Rightarrow> string list) \<Rightarrow> ('s, 'd, 'm) File_scheme \<Rightarrow> string list" where
  "bodySelectors declRefs specRefs f = concat (map (declSelectors declRefs specRefs) (Decls f))"

text \<open>
  Modelled from the spec: a name is referenced when some selector reference has it as
  left-hand identifier, by exact string match.
\<close>

definition isReferenced :: "string list \<Rightarrow> string \<Rightarrow> bool" where
  "isReferenced refs name = list_ex (\<lambda>x. x = name) refs"

text \<open>
  Modelled from the spec: an entry is retained when its alias is the blank identifier,
  whatever its usage, or when its local name is referenced; otherwise it is dropped.
\<close>

definition retainEntry :: "string list \<Rightarrow> 'm ImportEntry_scheme \<Rightarrow> bool" where
  "retainEntry refs e = (alias e = Some ''_'' \<or> isReferenced refs (localName e))"

text \<open>Modelled from the spec: the Unused-Import Detector, over the entries in order.\<close>

definition removeUnusedImports :: "string list \<Rightarrow> 'm ImportEntry_scheme list \<Rightarrow> 'm ImportEntry_scheme list" where
  "removeUnusedImports refs entries = filter (retainEntry refs) entries"

text \<open>Modelled from the spec: the letters and the digits of a version marker.\<close>

definition isLetter :: "char \<Rightarrow> bool" where
  "isLetter c = ((CHR ''a'' \<le> c \<and> c \<le> CHR ''z'') \<or> (CHR ''A'' \<le> c \<and> c \<le> CHR ''Z''))"

definition isDigit :: "char \<Rightarrow> bool" where
  "isDigit c = (CHR ''0'' \<le> c \<and> c \<le> CHR ''9'')"

text \<open>
  Modelled from the spec: a version marker is a lone letter followed by one or more
  digits, alone in its path segment.
\<close>

fun isVersionMarker :: "string \<Rightarrow> bool" where
  "isVersionMarker [] = False"
| "isVersionMarker (c # ds) = (isLetter c \<and> ds \<noteq> [] \<and> list_all isDigit ds)"

text \<open>
  Modelled from the spec: splitting a string at every character that ends a segment;
  never an empty list.
\<close>

fun splitWhere :: "(char \<Rightarrow> bool) \<Rightarrow> string \<Rightarrow> string list" where
  "splitWhere isEnd [] = [[]]"
| "splitWhere isEnd (c # cs) =
     (if isEnd c then [] # splitWhere isEnd cs
      else (case splitWhere isEnd cs of
              [] \<Rightarrow> [[c]]
            | w # ws \<Rightarrow> (c # w) # ws))"

text \<open>
  Modelled from the spec: the segments the Alias Assigner inspects. In the
  specification's example "gopkg.in/yaml.v3" the version marker is \<open>v3\<close> and the
  segment before it is \<open>yaml\<close>; in "github.com/go-pg/pg/v9" (the example of the
  \<open>-set-alias\<close> flag in main.go) they are \<open>v9\<close> and \<open>pg\<close>. So a segment ends at a path
  separator or at a dot.
\<close>

definition isSegmentEnd :: "char \<Rightarrow> bool" where
  "isSegmentEnd c = (c = CHR ''/'' \<or> c = CHR ''.'')"

definition versionSegments :: "string \<Rightarrow> string list" where
  "versionSegments s = splitWhere isSegmentEnd (unquote s)"

text \<open>
  Modelled from the spec: an entry without an explicit alias whose final segment is a
  version marker gets as alias the segment immediately before the marker; any other
  entry is left as it is (also a path that is a version marker only, with no segment
  before it, of which the specification says nothing).
\<close>

definition assignAlias :: "'m ImportEntry_scheme \<Rightarrow> 'm ImportEntry_scheme" where
  "assignAlias e =
     (case alias e of
        Some a \<Rightarrow> e
      | None \<Rightarrow>
          (case rev (versionSegments (path e)) of
             final # preceding # segs \<Rightarrow>
               if isVersionMarker final then e\<lparr>alias := Some preceding\<rparr> else e
           | _ \<Rightarrow> e))"

text \<open>Modelled from the spec: the Alias Assigner, over the surviving entries.\<close>

definition useAliasForVersionSuffix :: "'m ImportEntry_scheme list \<Rightarrow> 'm ImportEntry_scheme list" where
  "useAliasForVersionSuffix entries = map assignAlias entries"

section \<open>Closed forms of the loops\<close>

text \<open>Each loop of the source, as the list it computes.\<close>

lemma groupLoop_eq:
  "groupLoop S imps (s, p, g) =
     (s @ filter (\<lambda>i. i \<in> S) imps,
      p @ filter (\<lambda>i. i \<notin> S \<and> strings_Contains i projectName) imps,
      g @ filter (\<lambda>i. i \<notin> S \<and> \<not> strings_Contains i projectName) imps)"
  by (induction imps arbitrary: s p g) simp_all

lemma groupImports_eq:
  "groupImports S imps =
     (sort (filter (\<lambda>i. i \<in> S) imps),
      sort (filter (\<lambda>i. i \<notin> S \<and> strings_Contains i projectName) imps),
      sort (filter (\<lambda>i. i \<notin> S \<and> \<not> strings_Contains i projectName) imps))"
  by (simp add: groupImports_def groupLoop_eq)

lemma appendGroup_eq:
  "appendGroup (int (length xs)) g xs specs =
     specs @ map newImportSpec xs @ (if xs \<noteq> [] \<and> g \<noteq> [] then [newImportSpec ''''] else [])"
proof (induction xs arbitrary: specs)
  case Nil
  show ?case by simp
next
  case (Cons x xs)
  have "int (length (x # xs)) - 1 = int (length xs)" by simp
  then show ?case using Cons.IH by (cases xs) (simp_all add: Let_def)
qed

lemma appendProject_eq: "appendProject ps specs = specs @ map newImportSpec ps"
  by (induction ps arbitrary: specs) simp_all

lemma importBlock_eq:
  "importBlock s g p =
     map newImportSpec s @ (if s \<noteq> [] \<and> g \<noteq> [] then [newImportSpec ''''] else [])
     @ map newImportSpec g @ (if g \<noteq> [] then [newImportSpec ''''] else [])
     @ map newImportSpec p"
  by (simp add: importBlock_def appendGroup_eq appendProject_eq Let_def)

lemma pathValues_append: "pathValues (xs @ ys) = pathValues xs @ pathValues ys"
  by (induction xs rule: pathValues.induct) simp_all

lemma pathValues_new: "pathValues (map newImportSpec xs) = xs"
  by (induction xs) (simp_all add: newImportSpec_def)

lemma blockEntries_importBlock:
  "blockEntries (importBlock s g p) = filter (\<lambda>v. v \<noteq> []) (s @ g @ p)"
  by (simp add: blockEntries_def importBlock_eq pathValues_append pathValues_new newImportSpec_def)

lemma importSpecStrs_Inr:
  "importSpecStrs specs acc = Inr r \<Longrightarrow>
     \<exists>strs. r = acc @ strs \<and> list_all2 extractedFrom specs strs"
proof (induction specs acc arbitrary: r rule: importSpecStrs.induct)
  case (1 acc)
  then show ?case by simp
next
  case (2 x specs acc)
  then show ?case by simp
next
  case (3 name pathValue specs acc)
  from 3 obtain strs where "r = (acc @ [importSpecStr name pathValue]) @ strs"
      and "list_all2 extractedFrom specs strs"
    by auto
  then show ?case
    by (intro exI [of _ "importSpecStr name pathValue # strs"]) simp
qed

lemma combineDecls_Inr:
  "combineDecls decls acc = Inr r \<Longrightarrow>
     \<exists>strs. r = acc @ strs \<and> list_all2 extractedFrom (importSpecsOf decls) strs"
proof (induction decls acc arbitrary: r rule: combineDecls.induct)
  case (1 acc)
  then show ?case by simp
next
  case (2 tok specs decls acc)
  show ?case
  proof (cases "tok = IMPORT")
    case True
    with 2(3) obtain mid where m: "importSpecStrs specs acc = Inr mid"
        and r: "combineDecls decls mid = Inr r"
      by (auto split: sum.splits)
    from importSpecStrs_Inr [OF m] obtain s1 where
      s1: "mid = acc @ s1" "list_all2 extractedFrom specs s1" by blast
    from 2(1) [OF True m r] obtain s2 where
      s2: "r = mid @ s2" "list_all2 extractedFrom (importSpecsOf decls) s2" by blast
    show ?thesis
      using True s1 s2 by (intro exI [of _ "s1 @ s2"]) (simp add: list_all2_appendI)
  next
    case False
    with 2 show ?thesis by simp
  qed
next
  case (3 d decls acc)
  then show ?case by simp
qed

lemma combineImports_Inr:
  "combineImports f = Inr imps \<Longrightarrow> list_all2 extractedFrom (importSpecsOf (Decls f)) imps"
  using combineDecls_Inr [of "Decls f" "[]" imps] by (simp add: combineImports_def)

lemma combineDecls_no_import:
  "\<forall>d\<in>set decls. \<not> isImportDecl d \<Longrightarrow> combineDecls decls acc = Inr acc"
  by (induction decls acc rule: combineDecls.induct) simp_all

lemma fixDecl_no_import: "\<not> isImportDecl d \<Longrightarrow> fixDecl s g p d = d"
  by (cases d) simp_all

lemma fixDecl_import:
  "isImportDecl d \<Longrightarrow> fixDecl s g p d = GenDecl IMPORT (importBlock s g p)"
  by (cases d) simp_all

lemma revise_Inr:
  "revise S f = Inr f' \<Longrightarrow>
     \<exists>imps s p g. combineImports f = Inr imps \<and> groupImports S imps = (s, p, g)
        \<and> f' = fixImports f s g p"
  by (auto simp: revise_def split: sum.splits prod.splits)

text \<open>On a parsed file the type assertion never fails, and the pipeline returns a file.\<close>

lemma importSpecStrs_total:
  "\<forall>sp\<in>set specs. \<exists>n v. sp = ImportSpec n v \<Longrightarrow> \<exists>r. importSpecStrs specs acc = Inr r"
  by (induction specs acc rule: importSpecStrs.induct) auto

lemma combineDecls_total:
  "\<forall>sp\<in>set (importSpecsOf decls). \<exists>n v. sp = ImportSpec n v \<Longrightarrow>
     \<exists>r. combineDecls decls acc = Inr r"
proof (induction decls acc rule: combineDecls.induct)
  case (1 acc)
  show ?case by simp
next
  case (2 tok specs decls acc)
  show ?case
  proof (cases "tok = IMPORT")
    case True
    with 2(3) have a: "\<forall>sp\<in>set specs. \<exists>n v. sp = ImportSpec n v"
      and b: "\<forall>sp\<in>set (importSpecsOf decls). \<exists>n v. sp = ImportSpec n v"
      by auto
    from importSpecStrs_total [OF a] obtain mid where m: "importSpecStrs specs acc = Inr mid"
      by blast
    from 2(1) [OF True m b] show ?thesis
      using True m by simp
  next
    case False
    with 2 show ?thesis by simp
  qed
next
  case (3 d decls acc)
  then show ?case by simp
qed

lemma revise_total:
  "\<forall>sp\<in>set (importSpecsOf (Decls f)). \<exists>n v. sp = ImportSpec n v \<Longrightarrow> \<exists>f'. revise S f = Inr f'"
proof -
  assume "\<forall>sp\<in>set (importSpecsOf (Decls f)). \<exists>n v. sp = ImportSpec n v"
  from combineDecls_total [OF this, of "[]"] obtain imps where "combineImports f = Inr imps"
    by (auto simp: combineImports_def)
  then show ?thesis
    by (simp add: revise_def split: prod.splits)
qed

section \<open>Classification (C1)\<close>

lemma classify_spec_no_prefixes:
  "classify_spec S m [] i =
     (if i \<in> S then Standard else if strings_Contains i m then Project else General)"
  by (simp add: classify_spec_def)

text \<open>
  C1, as stated, fails: \<open>groupImports\<close> has no local prefixes. With a local prefix
  that the path starts with (the path carries its opening quote) the specification's
  decision is Project, while the code returns the import in the general list (the third
  component of its result).
\<close>

theorem groupImports_classification_counterexample:
  "classify_spec {} projectName [''\"example.com/local''] ''\"example.com/local/pkg\"'' = Project
   \<and> groupImports {} [''\"example.com/local/pkg\"''] = ([], [], [''\"example.com/local/pkg\"''])"
  by code_simp

text \<open>
  C1, amended: \<open>groupImports\<close> classifies every extracted import by the ordered
  decision of the specification taken with no local prefixes and with the constant
  \<open>projectName\<close> as module name: an exact match with the registry is Standard; otherwise
  an import containing \<open>projectName\<close> is Project; otherwise it is General. The three
  lists returned are the imports of each group, sorted.
\<close>

theorem groupImports_classification:
  "groupImports S imps =
     (sort (filter (\<lambda>i. classify_spec S projectName [] i = Standard) imps),
      sort (filter (\<lambda>i. classify_spec S projectName [] i = Project) imps),
      sort (filter (\<lambda>i. classify_spec S projectName [] i = General) imps))
   \<and> classify_spec S projectName [] i =
       (if i \<in> S then Standard
        else if strings_Contains i projectName then Project
        else General)"
proof -
  have a: "(\<lambda>i. classify_spec S projectName [] i = Standard) = (\<lambda>i. i \<in> S)"
    by (auto simp: classify_spec_no_prefixes)
  have b: "(\<lambda>i. classify_spec S projectName [] i = Project)
           = (\<lambda>i. i \<notin> S \<and> strings_Contains i projectName)"
    by (auto simp: classify_spec_no_prefixes)
  have c: "(\<lambda>i. classify_spec S projectName [] i = General)
           = (\<lambda>i. i \<notin> S \<and> \<not> strings_Contains i projectName)"
    by (auto simp: classify_spec_no_prefixes)
  show ?thesis
    unfolding a b c by (simp add: groupImports_eq classify_spec_no_prefixes)
qed

theorem groupImports_classification_witness:
  "groupImports {''\"fmt\"'', ''\"os\"''}
     [''\"os\"'', ''\"github.com/x/y\"'', ''\"github.com/incu6us/goimport-reviser/helper\"'', ''\"fmt\"'']
   = ([''\"fmt\"'', ''\"os\"''],
      [''\"github.com/incu6us/goimport-reviser/helper\"''],
      [''\"github.com/x/y\"''])
   \<and> classify_spec {''\"fmt\"'', ''\"os\"''} projectName [] ''\"fmt\"'' = Standard
   \<and> classify_spec {''\"fmt\"'', ''\"os\"''} projectName []
        ''\"github.com/incu6us/goimport-reviser/helper\"'' = Project
   \<and> classify_spec {''\"fmt\"'', ''\"os\"''} projectName [] ''\"github.com/x/y\"'' = General"
  using groupImports_classification [of "{''\"fmt\"'', ''\"os\"''}"
     "[''\"os\"'', ''\"github.com/x/y\"'', ''\"github.com/incu6us/goimport-reviser/helper\"'', ''\"fmt\"'']"
     "''\"fmt\"''"]
  by code_simp

section \<open>Order inside a group (C4)\<close>

text \<open>
  C4, as stated, fails for an import with an alias: the entries are ordered by the
  extracted strings, not by the paths. For \<open>import (z "a/b"; "github.com/x/y")\<close> the
  General group is emitted as "github.com/x/y", then \<open>z "a/b"\<close>, so the path
  "github.com/x/y" comes before the path "a/b".
\<close>

theorem revise_sorted_by_path_counterexample:
  "revise {}
     (\<lparr>Decls = [GenDecl IMPORT
        [ImportSpec (Some ''z'') ''\"a/b\"'', ImportSpec None ''\"github.com/x/y\"'']]\<rparr>
        :: (unit, unit) File)
   = Inr \<lparr>Decls = [GenDecl IMPORT
        [ImportSpec None ''\"github.com/x/y\"'', ImportSpec None ''z \"a/b\"'',
         ImportSpec None '''']]\<rparr>
   \<and> map entryPath (blockEntries
        [ImportSpec None ''\"github.com/x/y\"'', ImportSpec None ''z \"a/b\"'',
         ImportSpec None '''' :: unit spec])
     = [''\"github.com/x/y\"'', ''\"a/b\"'']
   \<and> \<not> ''\"github.com/x/y\"'' \<le> ''\"a/b\"''"
  by code_simp

lemma list_all2_in_set_right:
  "list_all2 P xs ys \<Longrightarrow> y \<in> set ys \<Longrightarrow> \<exists>x\<in>set xs. P x y"
  by (induction rule: list_all2_induct) auto

lemma pathValues_importBlock:
  "pathValues (importBlock s g p) =
     s @ (if s \<noteq> [] \<and> g \<noteq> [] then [[]] else []) @ g @ (if g \<noteq> [] then [[]] else []) @ p"
  by (simp add: importBlock_eq pathValues_append pathValues_new newImportSpec_def)

text \<open>
  C4, amended: in every import declaration of the output, the entries of each group
  appear sorted ascending, under byte-wise lexicographic order, by the string extracted
  from the import specification: the path literal for an import without alias, and the
  alias, a space and the path literal for an import with one. The declaration holds a
  sorted run of Standard entries, then a sorted run of General entries, then a sorted
  run of Project entries, with only blank-line placeholders between the runs, and
  consecutive entries of a run satisfy \<open>entry[i] \<le> entry[i+1]\<close>.
\<close>

theorem revise_groups_sorted:
  assumes "revise S f = Inr f'"
  shows "\<forall>d\<in>set (Decls f'). isImportDecl d \<longrightarrow>
     (\<exists>specs s g p sep1 sep2. d = GenDecl IMPORT specs
        \<and> pathValues specs = s @ sep1 @ g @ sep2 @ p
        \<and> set sep1 \<subseteq> {[]} \<and> set sep2 \<subseteq> {[]}
        \<and> sorted s \<and> sorted g \<and> sorted p
        \<and> (\<forall>i. Suc i < length s \<longrightarrow> s ! i \<le> s ! Suc i)
        \<and> (\<forall>i. Suc i < length g \<longrightarrow> g ! i \<le> g ! Suc i)
        \<and> (\<forall>i. Suc i < length p \<longrightarrow> p ! i \<le> p ! Suc i)
        \<and> (\<forall>x\<in>set s. classify_spec S projectName [] x = Standard)
        \<and> (\<forall>x\<in>set g. classify_spec S projectName [] x = General)
        \<and> (\<forall>x\<in>set p. classify_spec S projectName [] x = Project)
        \<and> (\<forall>x\<in>set (s @ g @ p). \<exists>sp\<in>set (importSpecsOf (Decls f)). extractedFrom sp x))"
proof (intro ballI impI)
  fix d assume d: "d \<in> set (Decls f')" "isImportDecl d"
  from revise_Inr [OF assms] obtain imps s p g where
    c: "combineImports f = Inr imps" and gr: "groupImports S imps = (s, p, g)"
    and f': "f' = fixImports f s g p"
    by blast
  from d f' obtain d0 where d0: "d = fixDecl s g p d0"
    by (auto simp: fixImports_def)
  have "isImportDecl d0"
    using d(2) d0 by (cases d0) (auto split: if_splits)
  then have dd: "d = GenDecl IMPORT (importBlock s g p)"
    using d0 by (simp add: fixDecl_import)
  let ?sep1 = "if s \<noteq> [] \<and> g \<noteq> [] then [[]] else [] :: string list"
  let ?sep2 = "if g \<noteq> [] then [[]] else [] :: string list"
  have pv: "pathValues (importBlock s g p :: 'a spec list) = s @ ?sep1 @ g @ ?sep2 @ p"
    by (rule pathValues_importBlock)
  have seps: "set ?sep1 \<subseteq> {[]}" "set ?sep2 \<subseteq> {[]}"
    by auto
  have s: "s = sort (filter (\<lambda>i. i \<in> S) imps)"
    and p: "p = sort (filter (\<lambda>i. i \<notin> S \<and> strings_Contains i projectName) imps)"
    and g: "g = sort (filter (\<lambda>i. i \<notin> S \<and> \<not> strings_Contains i projectName) imps)"
    using gr by (simp_all add: groupImports_eq)
  have srt: "sorted s" "sorted g" "sorted p"
    by (simp_all add: s g p)
  have nth: "\<forall>i. Suc i < length s \<longrightarrow> s ! i \<le> s ! Suc i"
      "\<forall>i. Suc i < length g \<longrightarrow> g ! i \<le> g ! Suc i"
      "\<forall>i. Suc i < length p \<longrightarrow> p ! i \<le> p ! Suc i"
    using srt by (simp_all add: sorted_iff_nth_Suc)
  have cls: "\<forall>x\<in>set s. classify_spec S projectName [] x = Standard"
      "\<forall>x\<in>set g. classify_spec S projectName [] x = General"
      "\<forall>x\<in>set p. classify_spec S projectName [] x = Project"
    by (simp_all add: s g p classify_spec_no_prefixes)
  have sub: "set (s @ g @ p) \<subseteq> set imps"
    by (auto simp: s g p)
  have ext: "\<forall>x\<in>set (s @ g @ p). \<exists>sp\<in>set (importSpecsOf (Decls f)). extractedFrom sp x"
    using sub list_all2_in_set_right [OF combineImports_Inr [OF c]] by blast
  show "\<exists>specs s g p sep1 sep2. d = GenDecl IMPORT specs
        \<and> pathValues specs = s @ sep1 @ g @ sep2 @ p
        \<and> set sep1 \<subseteq> {[]} \<and> set sep2 \<subseteq> {[]}
        \<and> sorted s \<and> sorted g \<and> sorted p
        \<and> (\<forall>i. Suc i < length s \<longrightarrow> s ! i \<le> s ! Suc i)
        \<and> (\<forall>i. Suc i < length g \<longrightarrow> g ! i \<le> g ! Suc i)
        \<and> (\<forall>i. Suc i < length p \<longrightarrow> p ! i \<le> p ! Suc i)
        \<and> (\<forall>x\<in>set s. classify_spec S projectName [] x = Standard)
        \<and> (\<forall>x\<in>set g. classify_spec S projectName [] x = General)
        \<and> (\<forall>x\<in>set p. classify_spec S projectName [] x = Project)
        \<and> (\<forall>x\<in>set (s @ g @ p). \<exists>sp\<in>set (importSpecsOf (Decls f)). extractedFrom sp x)"
  proof (intro exI conjI)
    show "d = GenDecl IMPORT (importBlock s g p)" by (rule dd)
    show "pathValues (importBlock s g p :: 'a spec list) = s @ ?sep1 @ g @ ?sep2 @ p" by (rule pv)
    show "set ?sep1 \<subseteq> {[]}" by (rule seps)
    show "set ?sep2 \<subseteq> {[]}" by (rule seps)
    show "sorted s" "sorted g" "sorted p" by (rule srt)+
    show "\<forall>i. Suc i < length s \<longrightarrow> s ! i \<le> s ! Suc i"
      "\<forall>i. Suc i < length g \<longrightarrow> g ! i \<le> g ! Suc i"
      "\<forall>i. Suc i < length p \<longrightarrow> p ! i \<le> p ! Suc i"
      by (rule nth)+
    show "\<forall>x\<in>set s. classify_spec S projectName [] x = Standard"
      "\<forall>x\<in>set g. classify_spec S projectName [] x = General"
      "\<forall>x\<in>set p. classify_spec S projectName [] x = Project"
      by (rule cls)+
    show "\<forall>x\<in>set (s @ g @ p). \<exists>sp\<in>set (importSpecsOf (Decls f)). extractedFrom sp x"
      by (rule ext)
  qed
qed

theorem revise_groups_sorted_witness:
  "revise {''\"fmt\"'', ''\"os\"''}
     (\<lparr>Decls = [GenDecl IMPORT
        [ImportSpec None ''\"os\"'', ImportSpec (Some ''z'') ''\"a/b\"'',
         ImportSpec None ''\"github.com/x/y\"'', ImportSpec None ''\"fmt\"'']]\<rparr>
        :: (unit, unit) File)
   = Inr \<lparr>Decls = [GenDecl IMPORT
        [ImportSpec None ''\"fmt\"'', ImportSpec None ''\"os\"'', ImportSpec None [],
         ImportSpec None ''\"github.com/x/y\"'', ImportSpec None ''z \"a/b\"'',
         ImportSpec None []]]\<rparr>
   \<and> (\<exists>s g p sep1 sep2.
        pathValues [ImportSpec None ''\"fmt\"'', ImportSpec None ''\"os\"'', ImportSpec None [],
           ImportSpec None ''\"github.com/x/y\"'', ImportSpec None ''z \"a/b\"'',
           ImportSpec None [] :: unit spec]
          = s @ sep1 @ g @ sep2 @ p
        \<and> set sep1 \<subseteq> {[]} \<and> set sep2 \<subseteq> {[]}
        \<and> sorted s \<and> sorted g \<and> sorted p)"
  (is "?r \<and> ?e")
proof -
  have r: ?r by code_simp
  let ?specs = "[ImportSpec None ''\"fmt\"'', ImportSpec None ''\"os\"'', ImportSpec None [],
           ImportSpec None ''\"github.com/x/y\"'', ImportSpec None ''z \"a/b\"'',
           ImportSpec None [] :: unit spec]"
  let ?d = "GenDecl IMPORT ?specs :: (unit, unit) decl"
  have mem: "?d \<in> set (Decls (\<lparr>Decls = [?d]\<rparr> :: (unit, unit) File))"
    by simp
  have imp: "isImportDecl ?d"
    by simp
  from revise_groups_sorted [OF r, THEN bspec, OF mem, THEN mp, OF imp]
  obtain specs s g p sep1 sep2 where "?d = GenDecl IMPORT specs"
    and "pathValues specs = s @ sep1 @ g @ sep2 @ p"
    and "set sep1 \<subseteq> {[]}" and "set sep2 \<subseteq> {[]}"
    and "sorted s" and "sorted g" and "sorted p"
    by (elim exE conjE) (rule that, assumption+)
  then have ?e by blast
  with r show ?thesis by blast
qed

section \<open>Emission (C2)\<close>

text \<open>
  C2 at two inputs. A file importing "fmt" and "github.com/x/y" (Standard and General,
  no Project import) is emitted with a blank-line placeholder after the last group; a
  file importing "fmt" and a project package (no General import) is emitted with no
  placeholder between the two groups.
\<close>

theorem revise_separators_at_inputs:
  "revise {''\"fmt\"''}
     (\<lparr>Decls = [GenDecl IMPORT [ImportSpec None ''\"github.com/x/y\"'', ImportSpec None ''\"fmt\"'']]\<rparr>
        :: (unit, unit) File)
   = Inr \<lparr>Decls = [GenDecl IMPORT
        [ImportSpec None ''\"fmt\"'', ImportSpec None '''',
         ImportSpec None ''\"github.com/x/y\"'', ImportSpec None '''']]\<rparr>
   \<and> revise {''\"fmt\"''}
     (\<lparr>Decls = [GenDecl IMPORT
         [ImportSpec None ''\"github.com/incu6us/goimport-reviser/helper\"'', ImportSpec None ''\"fmt\"'']]\<rparr>
        :: (unit, unit) File)
   = Inr \<lparr>Decls = [GenDecl IMPORT
        [ImportSpec None ''\"fmt\"'',
         ImportSpec None ''\"github.com/incu6us/goimport-reviser/helper\"'']]\<rparr>"
  by code_simp

text \<open>
  What does hold of the emitted block: its entries are the Standard, then the General,
  then the Project imports.
\<close>

lemma importBlock_group_order:
  "[] \<notin> set (s @ g @ p) \<Longrightarrow> blockEntries (importBlock s g p) = s @ g @ p"
  unfolding blockEntries_importBlock by (rule filter_True) auto

section \<open>Duplicates (C3)\<close>

text \<open>
  C3, as stated, fails: nothing is removed after extraction. A file whose import
  declaration names "fmt" twice is emitted with "fmt" twice; and when the second
  specification of the path "fmt" carries an alias, both are emitted as well.
\<close>

theorem revise_duplicates_counterexample:
  "revise {''\"fmt\"''}
     (\<lparr>Decls = [GenDecl IMPORT [ImportSpec None ''\"fmt\"'', ImportSpec None ''\"fmt\"'']]\<rparr>
        :: (unit, unit) File)
   = Inr \<lparr>Decls = [GenDecl IMPORT [ImportSpec None ''\"fmt\"'', ImportSpec None ''\"fmt\"'']]\<rparr>
   \<and> revise {''\"fmt\"''}
     (\<lparr>Decls = [GenDecl IMPORT [ImportSpec None ''\"fmt\"'', ImportSpec (Some ''f'') ''\"fmt\"'']]\<rparr>
        :: (unit, unit) File)
   = Inr \<lparr>Decls = [GenDecl IMPORT
        [ImportSpec None ''\"fmt\"'', ImportSpec None '''',
         ImportSpec None ''f \"fmt\"'', ImportSpec None '''']]\<rparr>"
  by code_simp

lemma mset_three_filters:
  "mset (filter (\<lambda>i. i \<in> S) xs @ filter (\<lambda>i. i \<notin> S \<and> \<not> C i) xs
       @ filter (\<lambda>i. i \<notin> S \<and> C i) xs) = mset xs"
  by (induction xs) auto

lemma mset_groupImports:
  "groupImports S imps = (s, p, g) \<Longrightarrow> mset (s @ g @ p) = mset imps"
  using mset_three_filters [where S = S and C = "\<lambda>i. strings_Contains i projectName" and xs = imps]
  by (auto simp: groupImports_eq)

lemma isImportDecl_fixDecl: "isImportDecl (fixDecl s g p d) = isImportDecl d"
  by (cases d) simp_all

lemma filter_isImportDecl_fixDecl:
  "filter isImportDecl (map (fixDecl s g p) ds) = map (fixDecl s g p) (filter isImportDecl ds)"
  by (induction ds) (simp_all add: isImportDecl_fixDecl)

text \<open>
  C3, amended: extraction yields one entry for each import specification, in source
  order, and removes none. For a file with one import declaration, the output has one
  import declaration, and the entries of its block (the path values other than the
  blank-line placeholders) are the extracted entries, reordered. So two entries of the
  output are identical exactly when two extracted entries are.
\<close>

theorem revise_keeps_every_entry:
  assumes "revise S f = Inr f'"
    and "filter isImportDecl (Decls f) = [d0]"
  shows "\<exists>imps specs. combineImports f = Inr imps
           \<and> list_all2 extractedFrom (importSpecsOf (Decls f)) imps
           \<and> filter isImportDecl (Decls f') = [GenDecl IMPORT specs]
           \<and> mset (blockEntries specs) = mset (filter (\<lambda>v. v \<noteq> []) imps)
           \<and> (distinct (blockEntries specs) \<longleftrightarrow> distinct (filter (\<lambda>v. v \<noteq> []) imps))"
proof -
  from revise_Inr [OF assms(1)] obtain imps s p g where
    c: "combineImports f = Inr imps" and gr: "groupImports S imps = (s, p, g)"
    and f': "f' = fixImports f s g p"
    by blast
  have m: "mset (blockEntries (importBlock s g p :: 'a spec list)) = mset (filter (\<lambda>v. v \<noteq> []) imps)"
    using mset_groupImports [OF gr]
    by (simp only: blockEntries_importBlock mset_filter)
  have "d0 \<in> set (filter isImportDecl (Decls f))"
    by (simp add: assms(2))
  then have "isImportDecl d0" by simp
  then have "filter isImportDecl (Decls f') = [GenDecl IMPORT (importBlock s g p)]"
    by (simp add: f' fixImports_def filter_isImportDecl_fixDecl assms(2) fixDecl_import)
  with c combineImports_Inr [OF c] m mset_eq_imp_distinct_iff [OF m]
  show ?thesis by blast
qed

theorem revise_keeps_every_entry_witness:
  "revise {''\"fmt\"'', ''\"os\"''}
     (\<lparr>Decls = [OtherDecl (), GenDecl IMPORT
        [ImportSpec None ''\"os\"'', ImportSpec (Some ''f'') ''\"fmt\"'', ImportSpec None ''\"fmt\"'']]\<rparr>
        :: (unit, unit) File)
   = Inr \<lparr>Decls = [OtherDecl (), GenDecl IMPORT
        [ImportSpec None ''\"fmt\"'', ImportSpec None ''\"os\"'', ImportSpec None '''',
         ImportSpec None ''f \"fmt\"'', ImportSpec None '''']]\<rparr>
   \<and> combineImports
     (\<lparr>Decls = [OtherDecl (), GenDecl IMPORT
        [ImportSpec None ''\"os\"'', ImportSpec (Some ''f'') ''\"fmt\"'', ImportSpec None ''\"fmt\"'']]\<rparr>
        :: (unit, unit) File)
   = Inr [''\"os\"'', ''f \"fmt\"'', ''\"fmt\"'']
   \<and> mset (blockEntries
        [ImportSpec None ''\"fmt\"'', ImportSpec None ''\"os\"'', ImportSpec None '''',
         ImportSpec None ''f \"fmt\"'', ImportSpec None '''' :: unit spec])
     = mset [''\"os\"'', ''f \"fmt\"'', ''\"fmt\"'']"
  (is "?r \<and> ?c \<and> ?m")
proof -
  have r: ?r by code_simp
  have c: ?c by code_simp
  have one: "filter isImportDecl (Decls
     (\<lparr>Decls = [OtherDecl (), GenDecl IMPORT
        [ImportSpec None ''\"os\"'', ImportSpec (Some ''f'') ''\"fmt\"'', ImportSpec None ''\"fmt\"'']]\<rparr>
        :: (unit, unit) File))
    = [GenDecl IMPORT
        [ImportSpec None ''\"os\"'', ImportSpec (Some ''f'') ''\"fmt\"'', ImportSpec None ''\"fmt\"'']]"
    by simp
  from revise_keeps_every_entry [OF r one] c
  have ?m by auto
  with r c show ?thesis by blast
qed

section \<open>The frame of the rewriting (C7)\<close>

text \<open>
  C7: the pipeline changes nothing but the import declarations. On a parsed file (its
  import declarations hold import specifications only) it returns a file. The output has as many
  declarations as the input, the other fields of the file are the same, an import
  declaration stays an import declaration at its place, and every other declaration is
  the one parsed. For a file with no import declaration the extractor returns the empty
  list and the pipeline returns the file as it was.
\<close>

theorem revise_frame:
  "((\<forall>sp\<in>set (importSpecsOf (Decls f)). \<exists>n v. sp = ImportSpec n v) \<longrightarrow>
      (\<exists>f'. revise S f = Inr f'))
   \<and> (revise S f = Inr f' \<longrightarrow>
      length (Decls f') = length (Decls f) \<and> File.more f' = File.more f
      \<and> (\<forall>i<length (Decls f).
           (isImportDecl (Decls f ! i) \<longrightarrow> isImportDecl (Decls f' ! i))
           \<and> (\<not> isImportDecl (Decls f ! i) \<longrightarrow> Decls f' ! i = Decls f ! i)))
   \<and> ((\<forall>d\<in>set (Decls f). \<not> isImportDecl d) \<longrightarrow>
        combineImports f = Inr [] \<and> revise S f = Inr f)"
proof (intro conjI impI)
  assume "\<forall>sp\<in>set (importSpecsOf (Decls f)). \<exists>n v. sp = ImportSpec n v"
  then show "\<exists>f'. revise S f = Inr f'"
    by (rule revise_total)
next
  assume r: "revise S f = Inr f'"
  from revise_Inr [OF r] obtain s p g where f': "f' = fixImports f s g p"
    by blast
  show "length (Decls f') = length (Decls f)"
    by (simp add: f' fixImports_def)
  show "File.more f' = File.more f"
    by (simp add: f' fixImports_def)
  show "\<forall>i<length (Decls f).
           (isImportDecl (Decls f ! i) \<longrightarrow> isImportDecl (Decls f' ! i))
           \<and> (\<not> isImportDecl (Decls f ! i) \<longrightarrow> Decls f' ! i = Decls f ! i)"
    by (simp add: f' fixImports_def fixDecl_no_import fixDecl_import)
next
  assume n: "\<forall>d\<in>set (Decls f). \<not> isImportDecl d"
  then show c: "combineImports f = Inr []"
    by (simp add: combineImports_def combineDecls_no_import)
  have "map (fixDecl s g p) (Decls f) = Decls f" for s g p
    using n by (simp add: map_idI fixDecl_no_import)
  then show "revise S f = Inr f"
    by (simp add: revise_def c fixImports_def split: prod.splits)
qed

theorem revise_frame_witness:
  "revise {''\"fmt\"''}
     (\<lparr>Decls = [OtherDecl ''func init'', GenDecl IMPORT [ImportSpec (Some ''f'') ''\"fmt\"''],
                GenDecl VAR [OtherSpec ''x = 1''], OtherDecl ''func main'']\<rparr> :: (string, string) File)
   = Inr \<lparr>Decls = [OtherDecl ''func init'',
                   GenDecl IMPORT [ImportSpec None ''f \"fmt\"'', ImportSpec None ''''],
                   GenDecl VAR [OtherSpec ''x = 1''], OtherDecl ''func main'']\<rparr>
   \<and> length [OtherDecl ''func init'',
               GenDecl IMPORT [ImportSpec None ''f \"fmt\"'', ImportSpec None ''''],
               GenDecl VAR [OtherSpec ''x = 1''], OtherDecl ''func main'' :: (string, string) decl]
     = length [OtherDecl ''func init'', GenDecl IMPORT [ImportSpec (Some ''f'') ''\"fmt\"''],
               GenDecl VAR [OtherSpec ''x = 1''], OtherDecl ''func main'' :: (string, string) decl]
   \<and> combineImports
       (\<lparr>Decls = [GenDecl CONST_token [OtherSpec ''c = 2''], OtherDecl ''func main'']\<rparr>
          :: (string, string) File)
     = Inr []
   \<and> revise {''\"fmt\"''}
       (\<lparr>Decls = [GenDecl CONST_token [OtherSpec ''c = 2''], OtherDecl ''func main'']\<rparr>
          :: (string, string) File)
     = Inr \<lparr>Decls = [GenDecl CONST_token [OtherSpec ''c = 2''], OtherDecl ''func main'']\<rparr>"
  (is "?a \<and> ?l \<and> ?b")
proof -
  have a: ?a by code_simp
  from revise_frame [where S = "{''\"fmt\"''}"
      and f = "\<lparr>Decls = [OtherDecl ''func init'', GenDecl IMPORT [ImportSpec (Some ''f'') ''\"fmt\"''],
                GenDecl VAR [OtherSpec ''x = 1''], OtherDecl ''func main'']\<rparr>"
      and f' = "\<lparr>Decls = [OtherDecl ''func init'',
                GenDecl IMPORT [ImportSpec None ''f \"fmt\"'', ImportSpec None ''''],
                GenDecl VAR [OtherSpec ''x = 1''], OtherDecl ''func main'']\<rparr>"] a
  have l: ?l by simp
  have "\<forall>d\<in>set (Decls (\<lparr>Decls = [GenDecl CONST_token [OtherSpec ''c = 2''], OtherDecl ''func main'']\<rparr>
      :: (string, string) File)). \<not> isImportDecl d"
    by simp
  with revise_frame [where S = "{''\"fmt\"''}"
      and f = "\<lparr>Decls = [GenDecl CONST_token [OtherSpec ''c = 2''], OtherDecl ''func main'']\<rparr>"]
  have ?b by blast
  with a l show ?thesis by blast
qed

section \<open>Running the pipeline on its own output (C8)\<close>

text \<open>
  C8 at a file with two import declarations, \<open>import "fmt"\<close> and \<open>import "os"\<close>. The
  first run writes the whole block into both declarations; the second run extracts
  four entries from them and writes every import twice into both declarations, so its
  output differs from its input. (The first output holds no blank-line placeholder, so
  the tree read back from its printed text has the same import specifications.)
\<close>

theorem revise_twice_at_two_import_declarations:
  "revise {''\"fmt\"'', ''\"os\"''}
     (\<lparr>Decls = [GenDecl IMPORT [ImportSpec None ''\"fmt\"''],
                GenDecl IMPORT [ImportSpec None ''\"os\"'']]\<rparr> :: (unit, unit) File)
   = Inr \<lparr>Decls = [GenDecl IMPORT [ImportSpec None ''\"fmt\"'', ImportSpec None ''\"os\"''],
                   GenDecl IMPORT [ImportSpec None ''\"fmt\"'', ImportSpec None ''\"os\"'']]\<rparr>
   \<and> revise {''\"fmt\"'', ''\"os\"''}
     (\<lparr>Decls = [GenDecl IMPORT [ImportSpec None ''\"fmt\"'', ImportSpec None ''\"os\"''],
                GenDecl IMPORT [ImportSpec None ''\"fmt\"'', ImportSpec None ''\"os\"'']]\<rparr>
        :: (unit, unit) File)
   = Inr \<lparr>Decls = [GenDecl IMPORT [ImportSpec None ''\"fmt\"'', ImportSpec None ''\"fmt\"'',
                                   ImportSpec None ''\"os\"'', ImportSpec None ''\"os\"''],
                   GenDecl IMPORT [ImportSpec None ''\"fmt\"'', ImportSpec None ''\"fmt\"'',
                                   ImportSpec None ''\"os\"'', ImportSpec None ''\"os\"'']]\<rparr>"
  by code_simp

section \<open>Aliased imports (C10)\<close>

lemma set_importBlock:
  "set (importBlock s g p) \<subseteq> newImportSpec ` (set s \<union> set g \<union> set p \<union> {[]})
   \<and> newImportSpec ` (set s \<union> set g \<union> set p) \<subseteq> set (importBlock s g p)"
  by (auto simp: importBlock_eq)

lemma alias_prefix_less:
  "a1 < a2 \<Longrightarrow> \<forall>c\<in>set a2. CHR '' '' < c \<Longrightarrow> a1 @ '' '' @ p1 < a2 @ '' '' @ p2"
proof (induction a1 arbitrary: a2)
  case Nil
  then show ?case by (cases a2) auto
next
  case (Cons x xs)
  then show ?case by (cases a2) auto
qed

lemma list_all2_in_set:
  "list_all2 P xs ys \<Longrightarrow> x \<in> set xs \<Longrightarrow> \<exists>y\<in>set ys. P x y"
  by (induction rule: list_all2_induct) auto

text \<open>
  C10: an import with an explicit alias is extracted as the single string made of the
  alias, a space and the quoted path. Classification works on that string: since it
  contains a space it matches no registry entry (no standard-library path has a space),
  so it is never in the Standard list, and it is in the Project list exactly when the
  whole string contains \<open>projectName\<close>. Every import declaration of the output holds it
  as the path value of a specification without a name, as all emitted specifications
  are. Two aliased entries sort by their aliases (aliases are identifiers: all their
  bytes are above the space).
\<close>

theorem aliased_import_flattened:
  assumes "\<forall>r\<in>S. CHR '' '' \<notin> set r"
    and "revise S f = Inr f'"
    and "ImportSpec (Some name) pv \<in> set (importSpecsOf (Decls f))"
  shows "importSpecStr (Some name) pv = name @ '' '' @ pv
    \<and> (\<exists>imps s p g. combineImports f = Inr imps \<and> groupImports S imps = (s, p, g)
        \<and> name @ '' '' @ pv \<in> set imps
        \<and> name @ '' '' @ pv \<notin> set s
        \<and> name @ '' '' @ pv \<in> set (if strings_Contains (name @ '' '' @ pv) projectName then p else g)
        \<and> (\<forall>d\<in>set (Decls f'). isImportDecl d \<longrightarrow>
             (\<exists>specs. d = GenDecl IMPORT specs
                \<and> ImportSpec None (name @ '' '' @ pv) \<in> set specs
                \<and> (\<forall>sp\<in>set specs. \<exists>v. sp = ImportSpec None v))))
    \<and> (a1 < a2 \<and> (\<forall>c\<in>set a2. CHR '' '' < c) \<longrightarrow>
         sort [a2 @ '' '' @ p2, a1 @ '' '' @ p1] = [a1 @ '' '' @ p1, a2 @ '' '' @ p2])"
proof -
  let ?str = "name @ '' '' @ pv"
  from revise_Inr [OF assms(2)] obtain imps s p g where
    c: "combineImports f = Inr imps" and gr: "groupImports S imps = (s, p, g)"
    and f': "f' = fixImports f s g p"
    by blast
  from list_all2_in_set [OF combineImports_Inr [OF c] assms(3)]
  have mem: "?str \<in> set imps" by auto
  have notin: "?str \<notin> S"
    using assms(1) by auto
  have s: "?str \<notin> set s"
    using gr notin by (auto simp: groupImports_eq)
  have pg: "?str \<in> set (if strings_Contains ?str projectName then p else g)"
    using gr notin mem by (auto simp: groupImports_eq)
  then have inblock: "ImportSpec None ?str \<in> set (importBlock s g p :: 'a spec list)"
    using set_importBlock [of s g p] by (auto simp: newImportSpec_def split: if_splits)
  have nameless: "\<forall>sp\<in>set (importBlock s g p :: 'a spec list). \<exists>v. sp = ImportSpec None v"
    using set_importBlock [of s g p] by (auto simp: newImportSpec_def)
  have decls: "\<forall>d\<in>set (Decls f'). isImportDecl d \<longrightarrow>
      (\<exists>specs. d = GenDecl IMPORT specs \<and> ImportSpec None ?str \<in> set specs
         \<and> (\<forall>sp\<in>set specs. \<exists>v. sp = ImportSpec None v))"
  proof (intro ballI impI)
    fix d assume d: "d \<in> set (Decls f')" "isImportDecl d"
    from d f' obtain d0 where d0: "d = fixDecl s g p d0"
      by (auto simp: fixImports_def)
    have "isImportDecl d0"
      using d(2) d0 by (cases d0) (auto split: if_splits)
    then have "d = GenDecl IMPORT (importBlock s g p)"
      using d0 by (simp add: fixDecl_import)
    with inblock nameless
    show "\<exists>specs. d = GenDecl IMPORT specs \<and> ImportSpec None ?str \<in> set specs
         \<and> (\<forall>sp\<in>set specs. \<exists>v. sp = ImportSpec None v)"
      by blast
  qed
  have srt: "a1 < a2 \<and> (\<forall>c\<in>set a2. CHR '' '' < c) \<longrightarrow>
         sort [a2 @ '' '' @ p2, a1 @ '' '' @ p1] = [a1 @ '' '' @ p1, a2 @ '' '' @ p2]"
  proof
    assume "a1 < a2 \<and> (\<forall>c\<in>set a2. CHR '' '' < c)"
    then have "a1 @ '' '' @ p1 < a2 @ '' '' @ p2"
      using alias_prefix_less [of a1 a2 p1 p2] by blast
    then show "sort [a2 @ '' '' @ p2, a1 @ '' '' @ p1] = [a1 @ '' '' @ p1, a2 @ '' '' @ p2]"
      by (simp add: less_le_not_le)
  qed
  from c gr mem s pg decls srt show ?thesis
    by (intro conjI exI [of _ imps] exI [of _ s] exI [of _ p] exI [of _ g]) simp_all
qed

theorem aliased_import_flattened_witness:
  "revise {''\"fmt\"'', ''\"os\"''}
     (\<lparr>Decls = [GenDecl IMPORT
        [ImportSpec (Some ''z'') ''\"fmt\"'', ImportSpec None ''\"os\"'', ImportSpec (Some ''a'') ''\"os\"'']]\<rparr>
        :: (unit, unit) File)
   = Inr \<lparr>Decls = [GenDecl IMPORT
        [ImportSpec None ''\"os\"'', ImportSpec None '''',
         ImportSpec None ''a \"os\"'', ImportSpec None ''z \"fmt\"'', ImportSpec None '''']]\<rparr>
   \<and> importSpecStr (Some ''z'') ''\"fmt\"'' = ''z \"fmt\"''
   \<and> sort [''z \"fmt\"'', ''a \"os\"''] = [''a \"os\"'', ''z \"fmt\"'']"
  (is "?r \<and> ?i \<and> ?s")
proof -
  have r: ?r by code_simp
  have reg: "\<forall>r\<in>{''\"fmt\"'', ''\"os\"''}. CHR '' '' \<notin> set r" by simp
  have mem: "ImportSpec (Some ''z'') ''\"fmt\"'' \<in> set (importSpecsOf (Decls
     (\<lparr>Decls = [GenDecl IMPORT
        [ImportSpec (Some ''z'') ''\"fmt\"'', ImportSpec None ''\"os\"'', ImportSpec (Some ''a'') ''\"os\"'']]\<rparr>
        :: (unit, unit) File)))"
    by simp
  have lt: "''a'' < ''z'' \<and> (\<forall>c\<in>set ''z''. CHR '' '' < c)" by simp
  from aliased_import_flattened [OF reg r mem, of "''a''" "''z''" "''\"fmt\"''" "''\"os\"''"] lt
  have "?i \<and> ?s" by simp
  with r show ?thesis by blast
qed

section \<open>Removing unused imports (C5)\<close>

text \<open>
  C5, as stated, fails on the detector of section 4.4: an entry aliased to the blank
  identifier has local name \<open>_\<close>, which no selector refers to, and is retained.
\<close>

theorem removeUnusedImports_blank_counterexample:
  "localName \<lparr>path = ''\"net/http/pprof\"'', alias = Some ''_''\<rparr> = ''_''
   \<and> \<not> isReferenced [''fmt''] ''_''
   \<and> removeUnusedImports [''fmt''] [\<lparr>path = ''\"net/http/pprof\"'', alias = Some ''_''\<rparr>]
     = [\<lparr>path = ''\"net/http/pprof\"'', alias = Some ''_''\<rparr>]"
  by code_simp

text \<open>
  C5, amended: with the option set, an entry is kept exactly when its alias is the blank
  identifier or some selector reference in the non-import part of the file has the
  entry's local name as left-hand identifier; every other entry is dropped, and the kept
  entries stay in their order. In particular, for a file importing "fmt" and
  "example.com/proj/unused" whose body refers only to \<open>fmt.Println\<close>, "fmt" is kept and
  "example.com/proj/unused" is dropped.
\<close>

theorem removeUnusedImports_keeps_referenced:
  "(e \<in> set (removeUnusedImports refs entries) \<longleftrightarrow>
      e \<in> set entries \<and> (alias e = Some ''_'' \<or> isReferenced refs (localName e)))
   \<and> (isReferenced refs n \<longleftrightarrow> n \<in> set refs)
   \<and> (\<exists>keep. removeUnusedImports refs entries = filter keep entries)
   \<and> bodySelectors (\<lambda>d. d) (\<lambda>s. s)
        (\<lparr>Decls = [GenDecl IMPORT [ImportSpec None ''\"fmt\"'',
                                     ImportSpec None ''\"example.com/proj/unused\"''],
                    OtherDecl [''fmt'']]\<rparr> :: (string list, string list) File)
      = [''fmt'']
   \<and> removeUnusedImports [''fmt'']
        [\<lparr>path = ''\"fmt\"'', alias = None\<rparr>, \<lparr>path = ''\"example.com/proj/unused\"'', alias = None\<rparr>]
      = [\<lparr>path = ''\"fmt\"'', alias = None\<rparr>]"
proof (intro conjI)
  show "e \<in> set (removeUnusedImports refs entries) \<longleftrightarrow>
      e \<in> set entries \<and> (alias e = Some ''_'' \<or> isReferenced refs (localName e))"
    by (auto simp: removeUnusedImports_def retainEntry_def)
  show "isReferenced refs n \<longleftrightarrow> n \<in> set refs"
    by (auto simp: isReferenced_def list_ex_iff)
  show "\<exists>keep. removeUnusedImports refs entries = filter keep entries"
    unfolding removeUnusedImports_def by blast
  show "bodySelectors (\<lambda>d. d) (\<lambda>s. s)
        (\<lparr>Decls = [GenDecl IMPORT [ImportSpec None ''\"fmt\"'',
                                     ImportSpec None ''\"example.com/proj/unused\"''],
                    OtherDecl [''fmt'']]\<rparr> :: (string list, string list) File)
      = [''fmt'']"
    by code_simp
  show "removeUnusedImports [''fmt'']
        [\<lparr>path = ''\"fmt\"'', alias = None\<rparr>, \<lparr>path = ''\"example.com/proj/unused\"'', alias = None\<rparr>]
      = [\<lparr>path = ''\"fmt\"'', alias = None\<rparr>]"
    by code_simp
qed

theorem removeUnusedImports_keeps_referenced_witness:
  "\<lparr>path = ''\"os\"'', alias = None\<rparr>
     \<in> set (removeUnusedImports [''os'', ''yaml'']
         [\<lparr>path = ''\"strings\"'', alias = None\<rparr>, \<lparr>path = ''\"os\"'', alias = None\<rparr>])
   \<and> \<lparr>path = ''\"strings\"'', alias = None\<rparr>
     \<notin> set (removeUnusedImports [''os'', ''yaml'']
         [\<lparr>path = ''\"strings\"'', alias = None\<rparr>, \<lparr>path = ''\"os\"'', alias = None\<rparr>])"
proof -
  have a: "isReferenced [''os'', ''yaml''] (localName \<lparr>path = ''\"os\"'', alias = None\<rparr>)"
    by code_simp
  have b: "\<not> isReferenced [''os'', ''yaml''] (localName \<lparr>path = ''\"strings\"'', alias = None\<rparr>)"
    by code_simp
  from removeUnusedImports_keeps_referenced
    [of "\<lparr>path = ''\"os\"'', alias = None\<rparr>" "[''os'', ''yaml'']"
        "[\<lparr>path = ''\"strings\"'', alias = None\<rparr>, \<lparr>path = ''\"os\"'', alias = None\<rparr>]"] a
  have 1: "\<lparr>path = ''\"os\"'', alias = None\<rparr>
     \<in> set (removeUnusedImports [''os'', ''yaml'']
         [\<lparr>path = ''\"strings\"'', alias = None\<rparr>, \<lparr>path = ''\"os\"'', alias = None\<rparr>])"
    by simp
  from removeUnusedImports_keeps_referenced
    [of "\<lparr>path = ''\"strings\"'', alias = None\<rparr>" "[''os'', ''yaml'']"
        "[\<lparr>path = ''\"strings\"'', alias = None\<rparr>, \<lparr>path = ''\"os\"'', alias = None\<rparr>]"] b
  have 2: "\<lparr>path = ''\"strings\"'', alias = None\<rparr>
     \<notin> set (removeUnusedImports [''os'', ''yaml'']
         [\<lparr>path = ''\"strings\"'', alias = None\<rparr>, \<lparr>path = ''\"os\"'', alias = None\<rparr>])"
    by simp
  from 1 2 show ?thesis by blast
qed

section \<open>Aliases for versioned paths (C6)\<close>

lemma splitWhere_not_Nil: "splitWhere P s \<noteq> []"
  by (induction s) (auto split: list.splits)

lemma splitWhere_no_end: "\<forall>c\<in>set xs. \<not> P c \<Longrightarrow> splitWhere P xs = [xs]"
  by (induction xs) auto

lemma splitWhere_append:
  "P c \<Longrightarrow> splitWhere P (xs @ c # ys) = splitWhere P xs @ splitWhere P ys"
proof (induction xs)
  case Nil
  then show ?case by simp
next
  case (Cons x xs)
  obtain w ws where w: "splitWhere P xs = w # ws"
    using splitWhere_not_Nil [of P xs] by (cases "splitWhere P xs") auto
  with Cons show ?case by simp
qed

lemma splitWhere_last_two:
  assumes "P sep" and "pre = [] \<or> P (last pre)"
    and "\<forall>c\<in>set name. \<not> P c" and "\<forall>c\<in>set marker. \<not> P c"
  shows "\<exists>segs. rev (splitWhere P (pre @ name @ [sep] @ marker)) = marker # name # segs"
proof -
  have 1: "splitWhere P (pre @ name @ [sep] @ marker) = splitWhere P (pre @ name) @ [marker]"
    using splitWhere_append [where P = P and c = sep and xs = "pre @ name" and ys = marker]
      assms(1) splitWhere_no_end [OF assms(4)]
    by simp
  have "\<exists>front. splitWhere P (pre @ name) = front @ [name]"
  proof (cases "pre = []")
    case True
    then show ?thesis
      using splitWhere_no_end [OF assms(3)] by simp
  next
    case False
    then obtain pre' l where pre: "pre = pre' @ [l]"
      by (metis append_butlast_last_id)
    with assms(2) False have "P l" by simp
    with splitWhere_append [where P = P and c = l and xs = pre' and ys = name]
      splitWhere_no_end [OF assms(3)]
    show ?thesis by (simp add: pre)
  qed
  then obtain front where "splitWhere P (pre @ name) = front @ [name]" by blast
  with 1 show ?thesis by simp
qed

lemma version_marker_no_end:
  assumes "(CHR ''a'' \<le> c \<and> c \<le> CHR ''z'') \<or> (CHR ''A'' \<le> c \<and> c \<le> CHR ''Z'')"
    and "\<forall>d\<in>set ds. CHR ''0'' \<le> d \<and> d \<le> CHR ''9''"
  shows "\<forall>x\<in>set (c # ds). \<not> isSegmentEnd x"
  using assms by (auto simp: isSegmentEnd_def)

text \<open>
  C6: with the option set, an entry without an explicit alias whose path ends in a
  version marker (a lone letter followed by one or more digits, after a path separator
  or a dot) gets as alias the segment immediately before the marker: the run of
  characters without separator or dot that the marker follows. This holds of every
  entry of the list the stage works on. In particular "gopkg.in/yaml.v3" gets the alias
  \<open>yaml\<close>.
\<close>

theorem assignAlias_version_suffix:
  assumes "alias e = None"
    and "unquote (path e) = pre @ name @ [sep] @ c # ds"
    and "pre = [] \<or> last pre = CHR ''/'' \<or> last pre = CHR ''.''"
    and "sep = CHR ''/'' \<or> sep = CHR ''.''"
    and "CHR ''/'' \<notin> set name \<and> CHR ''.'' \<notin> set name"
    and "(CHR ''a'' \<le> c \<and> c \<le> CHR ''z'') \<or> (CHR ''A'' \<le> c \<and> c \<le> CHR ''Z'')"
    and "ds \<noteq> []"
    and "\<forall>d\<in>set ds. CHR ''0'' \<le> d \<and> d \<le> CHR ''9''"
  shows "assignAlias e = e\<lparr>alias := Some name\<rparr>
    \<and> (e \<in> set entries \<longrightarrow> e\<lparr>alias := Some name\<rparr> \<in> set (useAliasForVersionSuffix entries))
    \<and> assignAlias \<lparr>path = ''\"gopkg.in/yaml.v3\"'', alias = None\<rparr>
      = \<lparr>path = ''\"gopkg.in/yaml.v3\"'', alias = Some ''yaml''\<rparr>"
proof -
  have m: "\<forall>x\<in>set (c # ds). \<not> isSegmentEnd x"
    by (rule version_marker_no_end [OF assms(6) assms(8)])
  have n: "\<forall>x\<in>set name. \<not> isSegmentEnd x"
    using assms(5) by (auto simp: isSegmentEnd_def)
  have "\<exists>segs. rev (splitWhere isSegmentEnd (pre @ name @ [sep] @ c # ds)) = (c # ds) # name # segs"
    by (rule splitWhere_last_two [OF _ _ n m]) (use assms(3,4) in \<open>auto simp: isSegmentEnd_def\<close>)
  then obtain segs where segs: "rev (versionSegments (path e)) = (c # ds) # name # segs"
    by (auto simp: versionSegments_def assms(2))
  have v: "isVersionMarker (c # ds)"
    using assms(6,7,8) by (simp add: isLetter_def isDigit_def list_all_iff)
  have a: "assignAlias e = e\<lparr>alias := Some name\<rparr>"
    using v by (simp add: assignAlias_def assms(1) segs del: isVersionMarker.simps)
  have b: "e \<in> set entries \<longrightarrow> e\<lparr>alias := Some name\<rparr> \<in> set (useAliasForVersionSuffix entries)"
    using a by (auto simp: useAliasForVersionSuffix_def image_iff intro: bexI [of _ e])
  have y: "assignAlias \<lparr>path = ''\"gopkg.in/yaml.v3\"'', alias = None\<rparr>
      = \<lparr>path = ''\"gopkg.in/yaml.v3\"'', alias = Some ''yaml''\<rparr>"
    by code_simp
  from a b y show ?thesis by (intro conjI)
qed

theorem assignAlias_version_suffix_witness:
  "assignAlias \<lparr>path = ''\"github.com/go-pg/pg/v9\"'', alias = None\<rparr>
     = \<lparr>path = ''\"github.com/go-pg/pg/v9\"'', alias = Some ''pg''\<rparr>
   \<and> useAliasForVersionSuffix
       [\<lparr>path = ''\"fmt\"'', alias = None\<rparr>, \<lparr>path = ''\"github.com/go-pg/pg/v9\"'', alias = None\<rparr>,
        \<lparr>path = ''\"gopkg.in/yaml.v3\"'', alias = Some ''y''\<rparr>]
     = [\<lparr>path = ''\"fmt\"'', alias = None\<rparr>, \<lparr>path = ''\"github.com/go-pg/pg/v9\"'', alias = Some ''pg''\<rparr>,
        \<lparr>path = ''\"gopkg.in/yaml.v3\"'', alias = Some ''y''\<rparr>]"
  (is "?a \<and> ?u")
proof -
  let ?e = "\<lparr>path = ''\"github.com/go-pg/pg/v9\"'', alias = None\<rparr>"
  have 1: "alias ?e = None" by simp
  have 2: "unquote (path ?e) = ''github.com/go-pg/'' @ ''pg'' @ [CHR ''/''] @ CHR ''v'' # ''9''"
    by code_simp
  have 3: "''github.com/go-pg/'' = [] \<or> last ''github.com/go-pg/'' = CHR ''/''
      \<or> last ''github.com/go-pg/'' = CHR ''.''"
    by simp
  have 4: "CHR ''/'' = CHR ''/'' \<or> CHR ''/'' = CHR ''.''" by simp
  have 5: "CHR ''/'' \<notin> set ''pg'' \<and> CHR ''.'' \<notin> set ''pg''" by simp
  have 6: "(CHR ''a'' \<le> CHR ''v'' \<and> CHR ''v'' \<le> CHR ''z'')
      \<or> (CHR ''A'' \<le> CHR ''v'' \<and> CHR ''v'' \<le> CHR ''Z'')"
    by simp
  have 7: "''9'' \<noteq> []" by simp
  have 8: "\<forall>d\<in>set ''9''. CHR ''0'' \<le> d \<and> d \<le> CHR ''9''" by simp
  from assignAlias_version_suffix [OF 1 2 3 4 5 6 7 8, THEN conjunct1]
  have a: ?a by simp
  have u: ?u by code_simp
  from a u show ?thesis by (rule conjI)
qed

section \<open>How often the driver runs a file (C9)\<close>

text \<open>
  C9 at the flags \<open>-file-path main.go -project-name example.com/proj -ignore-dir vendor
  -output stdout\<close>, with no directory given: after the \<open>switch\<close> has called the executor
  for the file path, \<open>main\<close> calls it for the file path again, and the file is passed to
  \<open>reviser.Execute\<close> twice. The same happens for a file found by the walk of
  \<open>-dir-path\<close> when \<open>-file-path\<close> names it too.
\<close>

theorem main_runs_file_path_twice:
  "calls (main
     \<lparr>osStat = (\<lambda>p. None), moduleNameOf = (\<lambda>p. None), walk = (\<lambda>p. []),
      Execute = (\<lambda>w pn fp lp opts. Some (''package main'', False)), writeFileOk = (\<lambda>p. True)\<rparr>
     \<lparr>ignoreDir = ''vendor'', dirPath = '''', filePath = ''main.go'',
      projectNameFlag = ''example.com/proj'', localPkgPrefixes = '''', output = ''stdout'',
      shouldShowVersion = False, shouldRemoveUnusedImports = False, shouldSetAlias = False,
      shouldFormat = False\<rparr>)
   = [''main.go'', ''main.go'']
   \<and> calls (main
     \<lparr>osStat = (\<lambda>p. if p = ''./pkg'' then Some True else None), moduleNameOf = (\<lambda>p. None),
      walk = (\<lambda>p. if p = ''./pkg'' then [WalkDir ''./pkg'', WalkFile ''pkg/a.go'', WalkFile ''pkg/b.go''] else []),
      Execute = (\<lambda>w pn fp lp opts. Some (''package pkg'', False)), writeFileOk = (\<lambda>p. True)\<rparr>
     \<lparr>ignoreDir = ''vendor'', dirPath = ''./pkg'', filePath = ''pkg/a.go'',
      projectNameFlag = ''example.com/proj'', localPkgPrefixes = '''', output = ''stdout'',
      shouldShowVersion = False, shouldRemoveUnusedImports = False, shouldSetAlias = False,
      shouldFormat = False\<rparr>)
   = [''pkg/a.go'', ''pkg/b.go'', ''pkg/a.go'']"
  by code_simp

end
